theory Spec2Isabelle
  imports Main "HOL-Library.AList"
begin

section \<open>Data model (queuectl/models.py)\<close>

text \<open>
  \<open>JobState\<close> is the string-backed enum of \<open>models.py\<close>. Timestamps are clock readings,
  modelled as natural numbers; the integers \<open>attempts\<close> and \<open>max_retries\<close> are Python
  integers.
\<close>

datatype JobState = PENDING | PROCESSING | COMPLETED | FAILED | DEAD

text \<open>
  The class \<open>Job\<close>: the object the queue manager and the worker hold. It has no lock
  fields. A row of the table \<open>jobs\<close> (\<open>Database._init_db\<close>) has the same seven columns
  followed by the nullable columns \<open>locked_at\<close> and \<open>locked_by\<close>.
\<close>

record Job =
  job_id :: string
  command :: string
  state :: JobState
  attempts :: int
  max_retries :: int
  created_at :: nat
  updated_at :: nat

record Row = Job +
  locked_at :: "nat option"
  locked_by :: "string option"

text \<open>The exceptions the modelled code raises.\<close>

datatype error =
    ValueError string
  | IntegrityError
  | OperationalError

section \<open>The job store (queuectl/database.py)\<close>

text \<open>
  The table is the list of its rows in insertion order. \<open>id\<close> is the primary key, so
  \<open>add_job\<close> raises \<open>sqlite3.IntegrityError\<close> on an id that is already present.
  An operation that can raise returns the exception (or its result) together with the
  table it leaves.
\<close>

type_synonym store = "Row list"

definition row_to_job :: "Row \<Rightarrow> Job" where
  "row_to_job r =
     \<lparr>job_id = job_id r, command = command r, state = state r, attempts = attempts r,
      max_retries = max_retries r, created_at = created_at r, updated_at = updated_at r\<rparr>"

definition add_job :: "Job \<Rightarrow> store \<Rightarrow> error option \<times> store" where
  "add_job job s =
     (if job_id job \<in> set (map job_id s) then (Some IntegrityError, s)
      else (None, s @ [\<lparr>job_id = job_id job, command = command job, state = state job,
                         attempts = attempts job, max_retries = max_retries job,
                         created_at = created_at job, updated_at = updated_at job,
                         locked_at = None, locked_by = None\<rparr>]))"

definition update_job :: "Job \<Rightarrow> store \<Rightarrow> store" where
  "update_job job s =
     map (\<lambda>r. if job_id r = job_id job
               then r\<lparr>command := command job, state := state job, attempts := attempts job,
                      max_retries := max_retries job, updated_at := updated_at job,
                      locked_at := None, locked_by := None\<rparr>
               else r) s"

definition get_row :: "string \<Rightarrow> store \<Rightarrow> Row option" where
  "get_row jid s = find (\<lambda>r. job_id r = jid) s"

definition get_job :: "string \<Rightarrow> store \<Rightarrow> Job option" where
  "get_job jid s = map_option row_to_job (get_row jid s)"

definition get_jobs_by_state :: "JobState \<Rightarrow> store \<Rightarrow> Job list" where
  "get_jobs_by_state st s =
     map row_to_job (sort_key created_at (filter (\<lambda>r. state r = st) s))"

definition get_pending_jobs :: "store \<Rightarrow> Job list" where
  "get_pending_jobs s =
     map row_to_job
       (sort_key created_at (filter (\<lambda>r. state r = PENDING \<and> locked_at r = None) s))"

text \<open>
  \<open>lock_job\<close> issues two statements. The first is the query
  \<open>SELECT locked_by FROM jobs WHERE id = ? AND locked_at IS NOT NULL\<close>; the second is
  \<open>UPDATE jobs SET state, locked_at, locked_by, updated_at WHERE id = ?\<close>, whose result
  is \<open>rowcount > 0\<close>. The two calls of \<open>datetime.utcnow()\<close> are the readings
  \<open>t_lock\<close> and \<open>t_upd\<close>.
\<close>

definition lock_job_select :: "string \<Rightarrow> store \<Rightarrow> bool" where
  "lock_job_select jid s = (find (\<lambda>r. job_id r = jid \<and> locked_at r \<noteq> None) s \<noteq> None)"

definition lock_job_update :: "string \<Rightarrow> string \<Rightarrow> nat \<Rightarrow> nat \<Rightarrow> store \<Rightarrow> bool \<times> store" where
  "lock_job_update jid worker_id t_lock t_upd s =
     (0 < length (filter (\<lambda>r. job_id r = jid) s),
      map (\<lambda>r. if job_id r = jid
                then r\<lparr>state := PROCESSING, locked_at := Some t_lock,
                       locked_by := Some worker_id, updated_at := t_upd\<rparr>
                else r) s)"

definition lock_job :: "string \<Rightarrow> string \<Rightarrow> nat \<Rightarrow> nat \<Rightarrow> store \<Rightarrow> bool \<times> store" where
  "lock_job jid worker_id t_lock t_upd s =
     (if lock_job_select jid s then (False, s)
      else lock_job_update jid worker_id t_lock t_upd s)"

definition unlock_job :: "string \<Rightarrow> nat \<Rightarrow> store \<Rightarrow> store" where
  "unlock_job jid now s =
     map (\<lambda>r. if job_id r = jid
               then r\<lparr>locked_at := None, locked_by := None, updated_at := now\<rparr>
               else r) s"

text \<open>
  \<open>get_stats\<close>: the rows of \<open>SELECT state, COUNT(*) FROM jobs GROUP BY state\<close> are
  stored into a dictionary, then \<open>setdefault\<close> adds every member of \<open>JobState\<close> that
  is missing. The dictionary is an association list in insertion order.
\<close>

definition group_by_state :: "store \<Rightarrow> (JobState \<times> nat) list" where
  "group_by_state s =
     map (\<lambda>st. (st, length (filter (\<lambda>r. state r = st) s))) (remdups (map state s))"

definition setdefault :: "'k \<Rightarrow> 'v \<Rightarrow> ('k \<times> 'v) list \<Rightarrow> ('k \<times> 'v) list" where
  "setdefault k v d = (case map_of d k of None \<Rightarrow> AList.update k v d | Some _ \<Rightarrow> d)"

definition dict_get :: "('k \<times> 'v) list \<Rightarrow> 'k \<Rightarrow> 'v \<Rightarrow> 'v" where
  "dict_get d k v = (case map_of d k of None \<Rightarrow> v | Some x \<Rightarrow> x)"

definition all_states :: "JobState list" where
  "all_states = [PENDING, PROCESSING, COMPLETED, FAILED, DEAD]"

definition get_stats :: "store \<Rightarrow> (JobState \<times> nat) list" where
  "get_stats s =
     foldl (\<lambda>stats st. setdefault st 0 stats)
       (foldl (\<lambda>stats (st, count). AList.update st count stats) [] (group_by_state s))
       all_states"

section \<open>Configuration (queuectl/config.py)\<close>

text \<open>
  The configuration is the dictionary loaded from the configuration file, or a copy of
  \<open>Config.DEFAULTS\<close> when there is none. Only its integer options are modelled.
\<close>

type_synonym config = "string \<rightharpoonup> int"

definition DEFAULTS :: config where
  "DEFAULTS = [''max_retries'' \<mapsto> 3, ''backoff_base'' \<mapsto> 2, ''worker_timeout'' \<mapsto> 300]"

definition config_get :: "config \<Rightarrow> string \<Rightarrow> int \<Rightarrow> int" where
  "config_get cfg key dflt = (case cfg key of None \<Rightarrow> dflt | Some v \<Rightarrow> v)"

text \<open>
  Configurations in which \<open>max_retries\<close> has been set, to 0 and to 2
  (\<open>Config.set\<close> stores any integer).
\<close>

definition retries_zero :: config where
  "retries_zero = DEFAULTS(''max_retries'' \<mapsto> 0)"

definition retries_two :: config where
  "retries_two = DEFAULTS(''max_retries'' \<mapsto> 2)"

section \<open>The queue manager (queuectl/queue.py)\<close>

text \<open>
  \<open>enqueue\<close>: \<open>uuid\<close> is the text of \<open>str(uuid.uuid4())\<close>, \<open>t_created\<close> and
  \<open>t_updated\<close> are the two readings of the clock. Python's \<open>or\<close> replaces every falsy
  left operand: \<open>None\<close> and the empty string for \<open>job_id\<close>, \<open>None\<close> and \<open>0\<close> for
  \<open>max_retries\<close>.
\<close>

definition enqueue ::
  "config \<Rightarrow> string \<Rightarrow> string option \<Rightarrow> int option \<Rightarrow> string \<Rightarrow> nat \<Rightarrow> nat \<Rightarrow> store
     \<Rightarrow> (error + Job) \<times> store" where
  "enqueue cfg cmd jid_arg max_retries_arg uuid t_created t_updated s =
     (let jid = (case jid_arg of None \<Rightarrow> take 12 uuid
                 | Some j \<Rightarrow> if j = [] then take 12 uuid else j);
          mr = (case max_retries_arg of None \<Rightarrow> config_get cfg ''max_retries'' 3
                | Some m \<Rightarrow> if m = 0 then config_get cfg ''max_retries'' 3 else m);
          job = \<lparr>job_id = jid, command = cmd, state = PENDING, attempts = 0,
                 max_retries = mr, created_at = t_created, updated_at = t_updated\<rparr>
      in case add_job job s of (Some e, s') \<Rightarrow> (Inl e, s') | (None, s') \<Rightarrow> (Inr job, s'))"

definition not_found :: "string \<Rightarrow> error" where
  "not_found jid = ValueError (''Job '' @ jid @ '' not found'')"

definition not_in_dlq :: "string \<Rightarrow> error" where
  "not_in_dlq jid = ValueError (''Job '' @ jid @ '' is not in DLQ'')"

definition retry_dlq_job :: "string \<Rightarrow> nat \<Rightarrow> store \<Rightarrow> (error + Job) \<times> store" where
  "retry_dlq_job jid now s =
     (case get_job jid s of
        None \<Rightarrow> (Inl (not_found jid), s)
      | Some job \<Rightarrow>
          if state job \<noteq> DEAD then (Inl (not_in_dlq jid), s)
          else (let job' = job\<lparr>state := PENDING, attempts := 0, updated_at := now\<rparr>
                in (Inr job', update_job job' s)))"

record queue_stats =
  total :: nat
  pending :: nat
  processing :: nat
  completed :: nat
  failed :: nat
  dead :: nat

definition qm_get_stats :: "store \<Rightarrow> queue_stats" where
  "qm_get_stats s =
     (let stats = get_stats s
      in \<lparr>total = sum_list (map snd stats),
          pending = dict_get stats PENDING 0,
          processing = dict_get stats PROCESSING 0,
          completed = dict_get stats COMPLETED 0,
          failed = dict_get stats FAILED 0,
          dead = dict_get stats DEAD 0\<rparr>)"

section \<open>The worker (queuectl/worker.py)\<close>

text \<open>
  \<open>subprocess.run\<close> is the command runner: it returns with an exit status, raises
  \<open>TimeoutExpired\<close>, or raises another exception when the command cannot be run at
  all. \<open>_execute_job\<close> catches both kinds of exception and returns \<open>False\<close>.
\<close>

datatype run_result = Returned int | TimeoutExpired | RunnerError

definition execute_job :: "(string \<Rightarrow> run_result) \<Rightarrow> Job \<Rightarrow> bool" where
  "execute_job run job =
     (case run (command job) of
        Returned returncode \<Rightarrow> returncode = 0
      | TimeoutExpired \<Rightarrow> False
      | RunnerError \<Rightarrow> False)"

text \<open>
  What one call of \<open>_process_next_job\<close> meets: the command runner, the readings of the
  clock at each call of \<open>datetime.utcnow()\<close>, and which of its calls of the store raise
  \<open>sqlite3.OperationalError\<close> (a call that raises changes nothing in the table).
\<close>

datatype db_call = GetPendingJobs | LockJob | UpdateJob | HandlerUpdateJob | HandlerUnlockJob

record tick_env =
  run :: "string \<Rightarrow> run_result"
  db_raises :: "db_call \<Rightarrow> bool"
  t_lock :: nat
  t_upd :: nat
  t_resolve :: nat
  t_handler :: nat
  t_unlock :: nat

text \<open>The branches of the \<open>try\<close> block that set the job's new state and attempts.\<close>

definition resolve :: "bool \<Rightarrow> Job \<Rightarrow> Job" where
  "resolve success job =
     (if success then job\<lparr>state := COMPLETED\<rparr>
      else (let job' = job\<lparr>attempts := attempts job + 1\<rparr>
            in if attempts job' \<ge> max_retries job' then job'\<lparr>state := DEAD\<rparr>
               else job'\<lparr>state := PENDING\<rparr>))"

text \<open>
  \<open>_process_next_job\<close> returns the exception that escapes it, if any, and the table it
  leaves. The reads of the pending jobs and the claim are outside the \<open>try\<close> block; the
  handler of \<open>except Exception\<close> runs when the resolving \<open>update_job\<close> raises, and its own
  two calls of the store are not guarded.
\<close>

definition process_next_job :: "tick_env \<Rightarrow> string \<Rightarrow> store \<Rightarrow> error option \<times> store" where
  "process_next_job env worker_id s =
     (if db_raises env GetPendingJobs then (Some OperationalError, s)
      else case get_pending_jobs s of
        [] \<Rightarrow> (None, s)
      | job # _ \<Rightarrow>
          if db_raises env LockJob then (Some OperationalError, s)
          else (case lock_job (job_id job) worker_id (t_lock env) (t_upd env) s of
            (False, s1) \<Rightarrow> (None, s1)
          | (True, s1) \<Rightarrow>
              (let job1 = (resolve (execute_job (run env) job) job)\<lparr>updated_at := t_resolve env\<rparr>
               in if \<not> db_raises env UpdateJob then (None, update_job job1 s1)
                  else (let job2 = job1\<lparr>state := FAILED, updated_at := t_handler env\<rparr>
                        in if db_raises env HandlerUpdateJob then (Some OperationalError, s1)
                           else (let s2 = update_job job2 s1
                                 in if db_raises env HandlerUnlockJob
                                    then (Some OperationalError, s2)
                                    else (None, unlock_job (job_id job) (t_unlock env) s2))))))"

text \<open>
  \<open>Worker.start\<close>: \<open>while self.running\<close> around \<open>_process_next_job\<close> and the sleep. Each
  element of the schedule is one iteration: what the iteration meets, and whether the
  shutdown signal arrived during it (the handler clears \<open>running\<close>, which the loop reads
  before the next iteration). An exception that escapes the iteration leaves the loop.
\<close>

datatype loop_exit = Stopped | Escaped error | Running

fun start :: "string \<Rightarrow> (tick_env \<times> bool) list \<Rightarrow> store \<Rightarrow> loop_exit \<times> store" where
  "start worker_id [] s = (Running, s)"
| "start worker_id ((env, signal) # ticks) s =
     (case process_next_job env worker_id s of
        (Some e, s') \<Rightarrow> (Escaped e, s')
      | (None, s') \<Rightarrow> if signal then (Stopped, s') else start worker_id ticks s')"

text \<open>An iteration in which no call of the store raises.\<close>

definition quiet :: "(string \<Rightarrow> run_result) \<Rightarrow> nat \<Rightarrow> tick_env" where
  "quiet r now =
     \<lparr>run = r, db_raises = (\<lambda>_. False), t_lock = now, t_upd = now, t_resolve = now,
      t_handler = now, t_unlock = now\<rparr>"

text \<open>
  An iteration in which the command fails and the store refuses both writes of the
  resolution, the one in the \<open>try\<close> block and the one in the handler (the database is
  locked by another connection, or the disk is full).
\<close>

definition write_failure :: tick_env where
  "write_failure =
     (quiet (\<lambda>_. Returned 1) 2)\<lparr>db_raises := (\<lambda>c. c = UpdateJob \<or> c = HandlerUpdateJob)\<rparr>"

text \<open>
  An iteration in which the runner itself errors and the store refuses the write of the
  resolution in the \<open>try\<close> block, but not the writes of the handler.
\<close>

definition update_refused :: tick_env where
  "update_refused = (quiet (\<lambda>_. RunnerError) 2)\<lparr>db_raises := (\<lambda>c. c = UpdateJob)\<rparr>"

section \<open>Sequences of operations\<close>

text \<open>
  The operations that change the table: \<open>enqueue\<close>, one iteration of a worker (in any
  environment), \<open>retry_dlq_job\<close>, and the store's \<open>lock_job\<close> and \<open>unlock_job\<close> called
  on their own. \<open>run_operations\<close> applies a sequence of them, one after the other.
  \<open>budget_given\<close> says that an \<open>enqueue\<close> creates its job with \<open>max_retries\<close> at least 1.
\<close>

datatype operation =
    Enqueue string "string option" "int option" string nat nat
  | Tick tick_env string
  | RetryDLQ string nat
  | Claim string string nat nat
  | Release string nat

fun apply_operation :: "config \<Rightarrow> operation \<Rightarrow> store \<Rightarrow> store" where
  "apply_operation cfg (Enqueue cmd jid_arg mr uuid t1 t2) s =
     snd (enqueue cfg cmd jid_arg mr uuid t1 t2 s)"
| "apply_operation cfg (Tick env worker_id) s = snd (process_next_job env worker_id s)"
| "apply_operation cfg (RetryDLQ jid now) s = snd (retry_dlq_job jid now s)"
| "apply_operation cfg (Claim jid worker_id t1 t2) s = snd (lock_job jid worker_id t1 t2 s)"
| "apply_operation cfg (Release jid now) s = unlock_job jid now s"

definition run_operations :: "config \<Rightarrow> operation list \<Rightarrow> store \<Rightarrow> store" where
  "run_operations cfg ops s = foldl (\<lambda>s' oper. apply_operation cfg oper s') s ops"

fun budget_given :: "config \<Rightarrow> operation \<Rightarrow> bool" where
  "budget_given cfg (Enqueue cmd jid_arg mr uuid t1 t2) =
     (1 \<le> (case mr of None \<Rightarrow> config_get cfg ''max_retries'' 3
            | Some m \<Rightarrow> if m = 0 then config_get cfg ''max_retries'' 3 else m))"
| "budget_given cfg _ = True"

text \<open>The retry budget of a row, and of a table with its primary key.\<close>

definition within_budget :: "'a Job_scheme \<Rightarrow> bool" where
  "within_budget r \<longleftrightarrow>
     1 \<le> max_retries r \<and> attempts r \<le> max_retries r
     \<and> (state r = PENDING \<longrightarrow> attempts r < max_retries r)
     \<and> (state r = DEAD \<longrightarrow> attempts r = max_retries r)"

definition table_ok :: "store \<Rightarrow> bool" where
  "table_ok s \<longleftrightarrow> distinct (map job_id s) \<and> (\<forall>r \<in> set s. within_budget r)"

section \<open>Claimants that interleave\<close>

text \<open>
  Several connections that run \<open>lock_job\<close> for the same job at once interleave at the
  level of the SQL statements: each claimant first runs the query, then the update. A
  schedule names, step by step, the claimant that runs its next statement.
\<close>

datatype claimant = Waiting | Selected | Finished bool

fun claim_step ::
  "string \<Rightarrow> nat \<Rightarrow> nat \<Rightarrow> (string \<times> claimant) list \<times> store
     \<Rightarrow> (string \<times> claimant) list \<times> store" where
  "claim_step jid now i (cs, s) =
     (if i < length cs then
        (case cs ! i of
           (w, Waiting) \<Rightarrow>
             (if lock_job_select jid s then (cs[i := (w, Finished False)], s)
              else (cs[i := (w, Selected)], s))
         | (w, Selected) \<Rightarrow>
             (case lock_job_update jid w now now s of
                (ok, s') \<Rightarrow> (cs[i := (w, Finished ok)], s'))
         | (w, Finished ok) \<Rightarrow> (cs, s))
      else (cs, s))"

definition run_claims ::
  "string \<Rightarrow> nat \<Rightarrow> nat list \<Rightarrow> string list \<Rightarrow> store \<Rightarrow> (string \<times> claimant) list \<times> store" where
  "run_claims jid now schedule workers s =
     foldl (\<lambda>st i. claim_step jid now i st) (map (\<lambda>w. (w, Waiting)) workers, s) schedule"

text \<open>Claims made one after the other: each \<open>lock_job\<close> ends before the next begins.\<close>

fun lock_job_each :: "string \<Rightarrow> nat \<Rightarrow> string list \<Rightarrow> store \<Rightarrow> bool list \<times> store" where
  "lock_job_each jid now [] s = ([], s)"
| "lock_job_each jid now (w # ws) s =
     (case lock_job jid w now now s of
        (ok, s') \<Rightarrow> (case lock_job_each jid now ws s' of (oks, s'') \<Rightarrow> (ok # oks, s'')))"

section \<open>Example tables\<close>

text \<open>
  Tables built with the operations above: \<open>job1\<close> enqueued; \<open>job1\<close> claimed by
  \<open>worker1\<close>; \<open>job1\<close> run to completion by one iteration of a worker; \<open>job2\<close>, whose
  command fails, enqueued with \<open>max_retries = 1\<close> and moved to the dead letter queue by
  one iteration; \<open>job3\<close>, whose command fails, enqueued with \<open>max_retries = 2\<close>, then
  after one and after two failed executions.
\<close>

definition job1_pending :: store where
  "job1_pending =
     snd (enqueue DEFAULTS ''echo ok'' (Some ''job1'') None
            ''3f2b8c1e-7a4d-4e2b-9c1a-5d6e7f8a9b0c'' 1 1 [])"

definition job1_locked :: store where
  "job1_locked = snd (lock_job ''job1'' ''worker1'' 2 3 job1_pending)"

definition job1_done :: store where
  "job1_done = snd (process_next_job (quiet (\<lambda>_. Returned 0) 2) ''worker1'' job1_pending)"

definition job2_dead :: store where
  "job2_dead =
     snd (process_next_job (quiet (\<lambda>_. Returned 1) 2) ''worker1''
       (snd (enqueue DEFAULTS ''false'' (Some ''job2'') (Some 1)
               ''3f2b8c1e-7a4d-4e2b-9c1a-5d6e7f8a9b0c'' 1 1 [])))"

definition job3_enqueued :: store where
  "job3_enqueued =
     snd (enqueue DEFAULTS ''false'' (Some ''job3'') (Some 2)
            ''3f2b8c1e-7a4d-4e2b-9c1a-5d6e7f8a9b0c'' 1 1 [])"

definition job3_failed_once :: store where
  "job3_failed_once = snd (process_next_job (quiet (\<lambda>_. Returned 1) 2) ''worker1'' job3_enqueued)"

definition job3_failed_twice :: store where
  "job3_failed_twice = snd (process_next_job (quiet (\<lambda>_. TimeoutExpired) 3) ''worker2'' job3_failed_once)"

definition job3_operations :: "operation list" where
  "job3_operations =
     [Enqueue ''false'' (Some ''job3'') (Some 2) ''3f2b8c1e-7a4d-4e2b-9c1a-5d6e7f8a9b0c'' 1 1,
      Tick (quiet (\<lambda>_. Returned 1) 2) ''worker1'']"

section \<open>Rows found by their key\<close>

lemma find_conj_unique:
  "distinct (map job_id s) \<Longrightarrow> find (\<lambda>r. job_id r = jid) s = Some r
     \<Longrightarrow> find (\<lambda>r. job_id r = jid \<and> P r) s = (if P r then Some r else None)"
proof (induction s)
  case Nil
  then show ?case by simp
next
  case (Cons a s)
  show ?case
  proof (cases "job_id a = jid")
    case True
    with Cons.prems have ar: "a = r" by simp
    from Cons.prems True have "\<forall>x \<in> set s. job_id x \<noteq> jid"
      by (metis distinct.simps(2) image_eqI list.simps(9) set_map)
    then have "find (\<lambda>r. job_id r = jid \<and> P r) s = None"
      by (auto simp: find_None_iff)
    with True ar show ?thesis by simp
  next
    case False
    with Cons show ?thesis by simp
  qed
qed

lemma find_map_upd:
  "(\<And>r. job_id (f r) = job_id r) \<Longrightarrow>
   find (\<lambda>r. job_id r = jid) (map (\<lambda>r. if job_id r = jid then f r else r) s)
     = map_option f (find (\<lambda>r. job_id r = jid) s)"
  by (induction s) auto

lemma find_map_other:
  "(\<And>r. job_id (f r) = job_id r) \<Longrightarrow> jid \<noteq> j \<Longrightarrow>
   find (\<lambda>r. job_id r = jid) (map (\<lambda>r. if job_id r = j then f r else r) s)
     = find (\<lambda>r. job_id r = jid) s"
  by (induction s) auto

lemma get_row_job_id: "get_row jid s = Some r \<Longrightarrow> job_id r = jid"
  by (auto simp: get_row_def find_Some_iff)

lemmas example_defs =
  job3_enqueued_def job3_failed_once_def job3_failed_twice_def
  job1_pending_def job1_locked_def job1_done_def job2_dead_def
  process_next_job_def quiet_def enqueue_def add_job_def DEFAULTS_def config_get_def
  get_pending_jobs_def row_to_job_def lock_job_def lock_job_select_def lock_job_update_def
  resolve_def execute_job_def update_job_def unlock_job_def get_row_def get_job_def
  retry_dlq_job_def Let_def

lemma find_distinct_member:
  "distinct (map job_id s) \<Longrightarrow> r \<in> set s \<Longrightarrow> find (\<lambda>x. job_id x = job_id r) s = Some r"
proof (induction s)
  case Nil then show ?case by simp
next
  case (Cons a s)
  show ?case
  proof (cases "a = r")
    case True then show ?thesis by simp
  next
    case False
    with Cons.prems have rs: "r \<in> set s" by simp
    with Cons.prems have "job_id a \<noteq> job_id r"
      by (metis distinct.simps(2) image_eqI list.simps(9) set_map)
    with Cons rs show ?thesis by simp
  qed
qed

section \<open>One iteration of the worker\<close>

lemma get_pending_jobs_head:
  assumes "get_pending_jobs s = job # rest"
  shows "\<exists>r \<in> set s. row_to_job r = job \<and> state r = PENDING \<and> locked_at r = None"
proof -
  let ?xs = "sort_key created_at (filter (\<lambda>r. state r = PENDING \<and> locked_at r = None) s)"
  from assms obtain r rs where xs: "?xs = r # rs" and j: "row_to_job r = job"
    by (auto simp: get_pending_jobs_def)
  have "r \<in> set ?xs" using xs by simp
  then have "r \<in> set s \<and> state r = PENDING \<and> locked_at r = None" by simp
  with j show ?thesis by blast
qed

lemma row_to_job_sel [simp]:
  "job_id (row_to_job r) = job_id r" "command (row_to_job r) = command r"
  "state (row_to_job r) = state r" "attempts (row_to_job r) = attempts r"
  "max_retries (row_to_job r) = max_retries r" "created_at (row_to_job r) = created_at r"
  "updated_at (row_to_job r) = updated_at r"
  by (simp_all add: row_to_job_def)

lemma resolve_sel [simp]:
  "job_id (resolve b j) = job_id j" "command (resolve b j) = command j"
  "max_retries (resolve b j) = max_retries j" "created_at (resolve b j) = created_at j"
  by (simp_all add: resolve_def Let_def)

lemma get_row_update_job:
  "get_row (job_id j) s = Some r \<Longrightarrow>
   get_row (job_id j) (update_job j s)
     = Some (r\<lparr>command := command j, state := state j, attempts := attempts j,
               max_retries := max_retries j, updated_at := updated_at j,
               locked_at := None, locked_by := None\<rparr>)"
  by (simp add: get_row_def update_job_def find_map_upd)

lemma get_row_lock_job_update:
  "get_row jid s = Some r \<Longrightarrow>
   get_row jid (snd (lock_job_update jid w t1 t2 s))
     = Some (r\<lparr>state := PROCESSING, locked_at := Some t1, locked_by := Some w,
               updated_at := t2\<rparr>)"
  by (simp add: get_row_def lock_job_update_def find_map_upd)

lemma lock_job_unlocked:
  assumes "distinct (map job_id s)" and "get_row jid s = Some r" and "locked_at r = None"
  shows "lock_job jid w t1 t2 s = (True, snd (lock_job_update jid w t1 t2 s))"
proof -
  have sel: "\<not> lock_job_select jid s"
    using find_conj_unique[OF assms(1), of jid r "\<lambda>r. locked_at r \<noteq> None"] assms(2,3)
    by (simp add: lock_job_select_def get_row_def)
  have ex: "filter (\<lambda>r. job_id r = jid) s \<noteq> []"
    using assms(2) by (auto simp: get_row_def filter_empty_conv find_Some_iff)
  show ?thesis using sel ex by (simp add: lock_job_def lock_job_update_def)
qed

lemma tick_resolved:
  assumes d: "distinct (map job_id s)"
    and p: "get_pending_jobs s = job # rest"
    and q: "\<not> db_raises env GetPendingJobs" "\<not> db_raises env LockJob" "\<not> db_raises env UpdateJob"
  shows "\<exists>r s'. get_row (job_id job) s = Some r \<and> row_to_job r = job
           \<and> state r = PENDING \<and> locked_at r = None
           \<and> process_next_job env w s = (None, s')
           \<and> s' = update_job ((resolve (execute_job (run env) job) job)\<lparr>updated_at := t_resolve env\<rparr>)
                    (snd (lock_job (job_id job) w (t_lock env) (t_upd env) s))
           \<and> get_row (job_id job) s'
               = Some (r\<lparr>state := state (resolve (execute_job (run env) job) job),
                         attempts := attempts (resolve (execute_job (run env) job) job),
                         updated_at := t_resolve env, locked_at := None, locked_by := None\<rparr>)"
proof -
  from get_pending_jobs_head[OF p] obtain r where
    r: "r \<in> set s" "row_to_job r = job" "state r = PENDING" "locked_at r = None" by blast
  have jid: "job_id job = job_id r" using r(2) by (auto simp: row_to_job_def)
  have g: "get_row (job_id job) s = Some r"
    using find_distinct_member[OF d r(1)] jid by (simp add: get_row_def)
  let ?s1 = "snd (lock_job_update (job_id job) w (t_lock env) (t_upd env) s)"
  let ?J = "(resolve (execute_job (run env) job) job)\<lparr>updated_at := t_resolve env\<rparr>"
  have l: "lock_job (job_id job) w (t_lock env) (t_upd env) s = (True, ?s1)"
    by (rule lock_job_unlocked[OF d g r(4)])
  have t: "process_next_job env w s = (None, update_job ?J ?s1)"
    using p q l by (simp add: process_next_job_def Let_def)
  have g1: "get_row (job_id ?J) ?s1
              = Some (r\<lparr>state := PROCESSING, locked_at := Some (t_lock env),
                        locked_by := Some w, updated_at := t_upd env\<rparr>)"
    using get_row_lock_job_update[OF g] by simp
  have cm: "command ?J = command r" "max_retries ?J = max_retries r"
    using r(2) by (auto simp: row_to_job_def)
  have g2: "get_row (job_id job) (update_job ?J ?s1)
              = Some (r\<lparr>state := state (resolve (execute_job (run env) job) job),
                         attempts := attempts (resolve (execute_job (run env) job) job),
                         updated_at := t_resolve env, locked_at := None, locked_by := None\<rparr>)"
    using get_row_update_job[OF g1] cm by simp
  from g r t g2 l show ?thesis by simp
qed

lemma tick_failed:
  assumes d: "distinct (map job_id s)"
    and p: "get_pending_jobs s = job # rest"
    and q: "\<not> db_raises env GetPendingJobs" "\<not> db_raises env LockJob" "\<not> db_raises env UpdateJob"
    and f: "\<not> execute_job (run env) job"
  shows "\<exists>r' s'. process_next_job env w s = (None, s')
           \<and> s' = update_job ((resolve False job)\<lparr>updated_at := t_resolve env\<rparr>)
                    (snd (lock_job (job_id job) w (t_lock env) (t_upd env) s))
           \<and> get_row (job_id job) s' = Some r'
           \<and> attempts r' = attempts job + 1 \<and> max_retries r' = max_retries job
           \<and> state r' = (if attempts job + 1 \<ge> max_retries job then DEAD else PENDING)
           \<and> locked_at r' = None \<and> locked_by r' = None"
  using tick_resolved[OF d p q, of w] f
  by (auto simp: resolve_def Let_def)

lemma get_row_unlock_job:
  "get_row jid s = Some r \<Longrightarrow>
   get_row jid (unlock_job jid now s)
     = Some (r\<lparr>locked_at := None, locked_by := None, updated_at := now\<rparr>)"
  by (simp add: get_row_def unlock_job_def find_map_upd)

lemma tick_handler:
  assumes d: "distinct (map job_id s)"
    and p: "get_pending_jobs s = job # rest"
    and q: "\<not> db_raises env GetPendingJobs" "\<not> db_raises env LockJob"
    and u: "db_raises env UpdateJob" "\<not> db_raises env HandlerUpdateJob"
      "\<not> db_raises env HandlerUnlockJob"
  shows "\<exists>r' s'. process_next_job env w s = (None, s')
           \<and> s' = unlock_job (job_id job) (t_unlock env)
                    (update_job ((resolve (execute_job (run env) job) job)
                                   \<lparr>updated_at := t_resolve env, state := FAILED,
                                    updated_at := t_handler env\<rparr>)
                       (snd (lock_job (job_id job) w (t_lock env) (t_upd env) s)))
           \<and> get_row (job_id job) s' = Some r'
           \<and> state r' = FAILED
           \<and> attempts r' = attempts (resolve (execute_job (run env) job) job)
           \<and> max_retries r' = max_retries job
           \<and> locked_at r' = None \<and> locked_by r' = None"
proof -
  from get_pending_jobs_head[OF p] obtain r where
    r: "r \<in> set s" "row_to_job r = job" "state r = PENDING" "locked_at r = None" by blast
  have jid: "job_id job = job_id r" using r(2) by (auto simp: row_to_job_def)
  have g: "get_row (job_id job) s = Some r"
    using find_distinct_member[OF d r(1)] jid by (simp add: get_row_def)
  let ?s1 = "snd (lock_job_update (job_id job) w (t_lock env) (t_upd env) s)"
  let ?F = "(resolve (execute_job (run env) job) job)
              \<lparr>updated_at := t_resolve env, state := FAILED, updated_at := t_handler env\<rparr>"
  have l: "lock_job (job_id job) w (t_lock env) (t_upd env) s = (True, ?s1)"
    by (rule lock_job_unlocked[OF d g r(4)])
  have t: "process_next_job env w s
             = (None, unlock_job (job_id job) (t_unlock env) (update_job ?F ?s1))"
    using p q u l by (simp add: process_next_job_def Let_def)
  have g1: "get_row (job_id ?F) ?s1
              = Some (r\<lparr>state := PROCESSING, locked_at := Some (t_lock env),
                        locked_by := Some w, updated_at := t_upd env\<rparr>)"
    using get_row_lock_job_update[OF g] by simp
  have g2: "get_row (job_id job) (update_job ?F ?s1)
              = Some (r\<lparr>state := PROCESSING, locked_at := Some (t_lock env),
                        locked_by := Some w, updated_at := t_upd env,
                        command := command ?F, state := state ?F, attempts := attempts ?F,
                        max_retries := max_retries ?F, updated_at := updated_at ?F,
                        locked_at := None, locked_by := None\<rparr>)"
    using get_row_update_job[OF g1] by simp
  have mr: "max_retries r = max_retries job" using r(2) by (auto simp: row_to_job_def)
  from get_row_unlock_job[OF g2, of "t_unlock env"] t l mr show ?thesis by simp
qed

section \<open>Claiming a job\<close>

text \<open>
  C2 (as amended). In a table whose ids are distinct, for a job that is in the table,
  \<open>lock_job\<close> succeeds if and only if the job was not locked before, whatever its state
  is. On success the row has state \<open>PROCESSING\<close>, \<open>locked_at\<close> the reading of the clock,
  \<open>locked_by\<close> the worker and a new \<open>updated_at\<close>, and is otherwise as before. When the
  job is locked already, \<open>lock_job\<close> returns \<open>False\<close> and the table is unchanged.
\<close>

theorem lock_job_unlocked_iff:
  assumes "distinct (map job_id s)" and "get_row jid s = Some r"
  shows "(fst (lock_job jid w t1 t2 s) \<longleftrightarrow> locked_at r = None)
       \<and> (locked_at r = None \<longrightarrow>
            get_row jid (snd (lock_job jid w t1 t2 s))
              = Some (r\<lparr>state := PROCESSING, locked_at := Some t1,
                        locked_by := Some w, updated_at := t2\<rparr>))
       \<and> (locked_at r \<noteq> None \<longrightarrow> lock_job jid w t1 t2 s = (False, s))"
proof -
  have sel: "lock_job_select jid s = (locked_at r \<noteq> None)"
    using find_conj_unique[OF assms(1), of jid r "\<lambda>r. locked_at r \<noteq> None"] assms(2)
    by (auto simp: lock_job_select_def get_row_def)
  have ex: "filter (\<lambda>r. job_id r = jid) s \<noteq> []"
    using assms(2) by (auto simp: get_row_def filter_empty_conv find_Some_iff)
  have jr: "job_id r = jid"
    using assms(2) by (rule get_row_job_id)
  have a: "fst (lock_job jid w t1 t2 s) \<longleftrightarrow> locked_at r = None"
    using sel ex by (simp add: lock_job_def lock_job_update_def)
  have b: "locked_at r = None \<longrightarrow>
            get_row jid (snd (lock_job jid w t1 t2 s))
              = Some (r\<lparr>state := PROCESSING, locked_at := Some t1,
                        locked_by := Some w, updated_at := t2\<rparr>)"
    using sel assms(2) jr
    by (simp add: lock_job_def lock_job_update_def get_row_def find_map_upd)
  have c: "locked_at r \<noteq> None \<longrightarrow> lock_job jid w t1 t2 s = (False, s)"
    using sel by (simp add: lock_job_def)
  from a b c show ?thesis by blast
qed

theorem lock_job_unlocked_iff_witness:
  "fst (lock_job ''job1'' ''worker1'' 2 3 job1_pending)
   \<and> get_row ''job1'' (snd (lock_job ''job1'' ''worker1'' 2 3 job1_pending))
       = Some \<lparr>job_id = ''job1'', command = ''echo ok'', state = PROCESSING, attempts = 0,
               max_retries = 3, created_at = 1, updated_at = 3,
               locked_at = Some 2, locked_by = Some ''worker1''\<rparr>
   \<and> lock_job ''job1'' ''worker2'' 4 5 job1_locked = (False, job1_locked)"
proof -
  let ?r = "\<lparr>job_id = ''job1'', command = ''echo ok'', state = PENDING, attempts = 0,
             max_retries = 3, created_at = 1, updated_at = 1,
             locked_at = None, locked_by = None\<rparr>"
  let ?r' = "\<lparr>job_id = ''job1'', command = ''echo ok'', state = PROCESSING, attempts = 0,
              max_retries = 3, created_at = 1, updated_at = 3,
              locked_at = Some 2, locked_by = Some ''worker1''\<rparr>"
  have d: "distinct (map job_id job1_pending)" by (simp add: example_defs)
  have g: "get_row ''job1'' job1_pending = Some ?r" by (simp add: example_defs)
  have d': "distinct (map job_id job1_locked)" by (simp add: example_defs)
  have g': "get_row ''job1'' job1_locked = Some ?r'" by (simp add: example_defs)
  show ?thesis
    using lock_job_unlocked_iff[OF d g, of "''worker1''" 2 3]
      lock_job_unlocked_iff[OF d' g', of "''worker2''" 4 5]
    by simp
qed

text \<open>
  C2 as stated fails: a job that is not locked and whose state is \<open>COMPLETED\<close>, not
  \<open>PENDING\<close>, is claimed, and its state becomes \<open>PROCESSING\<close>.
\<close>

theorem lock_job_completed_counterexample:
  "map state job1_done = [COMPLETED] \<and> map locked_at job1_done = [None]
   \<and> fst (lock_job ''job1'' ''worker2'' 3 4 job1_done)
   \<and> map state (snd (lock_job ''job1'' ''worker2'' 3 4 job1_done)) = [PROCESSING]"
  by (simp add: example_defs)

section \<open>Retrying a job of the dead letter queue\<close>

text \<open>
  C4. \<open>retry_dlq_job\<close> raises the error "not found" when no job has the id; it raises
  the error "is not in DLQ" when the job's state is not \<open>DEAD\<close>, and the table is then
  unchanged; on a job whose state is \<open>DEAD\<close> it returns the job with \<open>attempts = 0\<close> and
  state \<open>PENDING\<close>, and the row has these values and no lock. The two errors differ.
\<close>

theorem retry_dlq_job_cases:
  "(get_row jid s = None \<longrightarrow> retry_dlq_job jid now s = (Inl (not_found jid), s))
 \<and> (\<forall>r. get_row jid s = Some r \<and> state r \<noteq> DEAD
        \<longrightarrow> retry_dlq_job jid now s = (Inl (not_in_dlq jid), s))
 \<and> (\<forall>r. get_row jid s = Some r \<and> state r = DEAD \<longrightarrow>
       (\<exists>job' s'. retry_dlq_job jid now s = (Inr job', s')
          \<and> state job' = PENDING \<and> attempts job' = 0
          \<and> get_row jid s' = Some (r\<lparr>state := PENDING, attempts := 0, updated_at := now,
                                      locked_at := None, locked_by := None\<rparr>)))
 \<and> not_found jid \<noteq> not_in_dlq jid"
proof -
  have a: "get_row jid s = None \<longrightarrow> retry_dlq_job jid now s = (Inl (not_found jid), s)"
    by (simp add: retry_dlq_job_def get_job_def)
  have b: "\<forall>r. get_row jid s = Some r \<and> state r \<noteq> DEAD
             \<longrightarrow> retry_dlq_job jid now s = (Inl (not_in_dlq jid), s)"
    by (simp add: retry_dlq_job_def get_job_def row_to_job_def)
  have c: "\<forall>r. get_row jid s = Some r \<and> state r = DEAD \<longrightarrow>
       (\<exists>job' s'. retry_dlq_job jid now s = (Inr job', s')
          \<and> state job' = PENDING \<and> attempts job' = 0
          \<and> get_row jid s' = Some (r\<lparr>state := PENDING, attempts := 0, updated_at := now,
                                      locked_at := None, locked_by := None\<rparr>))"
  proof (intro allI impI)
    fix r assume h: "get_row jid s = Some r \<and> state r = DEAD"
    then have jr: "job_id r = jid" by (auto dest: get_row_job_id)
    show "\<exists>job' s'. retry_dlq_job jid now s = (Inr job', s')
          \<and> state job' = PENDING \<and> attempts job' = 0
          \<and> get_row jid s' = Some (r\<lparr>state := PENDING, attempts := 0, updated_at := now,
                                      locked_at := None, locked_by := None\<rparr>)"
      using h jr
      by (simp add: retry_dlq_job_def get_job_def row_to_job_def update_job_def get_row_def
            find_map_upd Let_def)
  qed
  have d: "not_found jid \<noteq> not_in_dlq jid"
  proof
    assume "not_found jid = not_in_dlq jid"
    then have "last (''Job '' @ jid @ '' not found'') = last (''Job '' @ jid @ '' is not in DLQ'')"
      by (simp add: not_found_def not_in_dlq_def)
    then show False by simp
  qed
  from a b c d show ?thesis by blast
qed

theorem retry_dlq_job_cases_witness:
  "retry_dlq_job ''job9'' 5 job1_pending = (Inl (not_found ''job9''), job1_pending)
 \<and> retry_dlq_job ''job1'' 5 job1_pending = (Inl (not_in_dlq ''job1''), job1_pending)
 \<and> retry_dlq_job ''job1'' 5 job1_locked = (Inl (not_in_dlq ''job1''), job1_locked)
 \<and> retry_dlq_job ''job1'' 5 job1_done = (Inl (not_in_dlq ''job1''), job1_done)
 \<and> (\<exists>job' s'. retry_dlq_job ''job2'' 5 job2_dead = (Inr job', s')
       \<and> state job' = PENDING \<and> attempts job' = 0
       \<and> get_row ''job2'' s'
           = Some \<lparr>job_id = ''job2'', command = ''false'', state = PENDING, attempts = 0,
                   max_retries = 1, created_at = 1, updated_at = 5,
                   locked_at = None, locked_by = None\<rparr>)"
proof -
  have n: "get_row ''job9'' job1_pending = None" by (simp add: example_defs)
  have p: "get_row ''job1'' job1_pending
             = Some \<lparr>job_id = ''job1'', command = ''echo ok'', state = PENDING, attempts = 0,
                     max_retries = 3, created_at = 1, updated_at = 1,
                     locked_at = None, locked_by = None\<rparr>"
    by (simp add: example_defs)
  have l: "get_row ''job1'' job1_locked
             = Some \<lparr>job_id = ''job1'', command = ''echo ok'', state = PROCESSING, attempts = 0,
                     max_retries = 3, created_at = 1, updated_at = 3,
                     locked_at = Some 2, locked_by = Some ''worker1''\<rparr>"
    by (simp add: example_defs)
  have c: "get_row ''job1'' job1_done
             = Some \<lparr>job_id = ''job1'', command = ''echo ok'', state = COMPLETED, attempts = 0,
                     max_retries = 3, created_at = 1, updated_at = 2,
                     locked_at = None, locked_by = None\<rparr>"
    by (simp add: example_defs)
  have d: "get_row ''job2'' job2_dead
             = Some \<lparr>job_id = ''job2'', command = ''false'', state = DEAD, attempts = 1,
                     max_retries = 1, created_at = 1, updated_at = 2,
                     locked_at = None, locked_by = None\<rparr>"
    by (simp add: example_defs)
  show ?thesis
    using retry_dlq_job_cases[of "''job9''" job1_pending 5] n
      retry_dlq_job_cases[of "''job1''" job1_pending 5] p
      retry_dlq_job_cases[of "''job1''" job1_locked 5] l
      retry_dlq_job_cases[of "''job1''" job1_done 5] c
      retry_dlq_job_cases[of "''job2''" job2_dead 5] d
    by simp
qed

section \<open>Resolving a failed execution\<close>

text \<open>
  C3. When an iteration of the worker claims the oldest pending job and the runner
  reports a failure (an exit status other than zero, or a timeout), and no call of the
  store raises, the job's row has \<open>attempts\<close> incremented by one, state \<open>DEAD\<close> if the
  new \<open>attempts\<close> is at least \<open>max_retries\<close> and \<open>PENDING\<close> otherwise, and no lock.
  The witness is the job with \<open>max_retries = 2\<close>: \<open>PENDING\<close> with \<open>attempts = 1\<close> after
  one failure, \<open>DEAD\<close> with \<open>attempts = 2\<close> after two.
\<close>

theorem failed_execution_resolution:
  assumes "distinct (map job_id s)"
    and "get_pending_jobs s = job # rest"
    and "\<not> db_raises env GetPendingJobs" "\<not> db_raises env LockJob" "\<not> db_raises env UpdateJob"
    and "(\<exists>rc. run env (command job) = Returned rc \<and> rc \<noteq> 0)
          \<or> run env (command job) = TimeoutExpired"
  shows "\<exists>r' s'. process_next_job env w s = (None, s')
           \<and> get_row (job_id job) s' = Some r'
           \<and> attempts r' = attempts job + 1
           \<and> state r' = (if attempts job + 1 \<ge> max_retries job then DEAD else PENDING)
           \<and> locked_at r' = None \<and> locked_by r' = None"
proof -
  from assms(6) have "\<not> execute_job (run env) job"
    by (auto simp: execute_job_def)
  from tick_failed[OF assms(1-5) this, of w] show ?thesis by blast
qed

theorem failed_execution_resolution_witness:
  "map (\<lambda>r. (state r, attempts r, max_retries r)) job3_enqueued = [(PENDING, 0, 2)]
 \<and> map (\<lambda>r. (state r, attempts r, locked_at r)) job3_failed_once = [(PENDING, 1, None)]
 \<and> map (\<lambda>r. (state r, attempts r, locked_at r)) job3_failed_twice = [(DEAD, 2, None)]"
proof -
  let ?j0 = "\<lparr>job_id = ''job3'', command = ''false'', state = PENDING, attempts = 0,
              max_retries = 2, created_at = 1, updated_at = 1\<rparr>"
  let ?j1 = "\<lparr>job_id = ''job3'', command = ''false'', state = PENDING, attempts = 1,
              max_retries = 2, created_at = 1, updated_at = 2\<rparr>"
  let ?e1 = "quiet (\<lambda>_. Returned 1) 2"
  let ?e2 = "quiet (\<lambda>_. TimeoutExpired) 3"
  have s0: "job3_enqueued = [\<lparr>job_id = ''job3'', command = ''false'', state = PENDING, attempts = 0,
              max_retries = 2, created_at = 1, updated_at = 1, locked_at = None, locked_by = None\<rparr>]"
    by (simp add: example_defs)
  have d0: "distinct (map job_id job3_enqueued)" by (simp add: s0)
  have p0: "get_pending_jobs job3_enqueued = ?j0 # []"
    by (simp add: s0 get_pending_jobs_def row_to_job_def)
  have q1: "\<not> db_raises ?e1 GetPendingJobs" "\<not> db_raises ?e1 LockJob" "\<not> db_raises ?e1 UpdateJob"
    by (simp_all add: quiet_def)
  have f1: "(\<exists>rc. run ?e1 (command ?j0) = Returned rc \<and> rc \<noteq> 0)
          \<or> run ?e1 (command ?j0) = TimeoutExpired"
    by (simp add: quiet_def)
  have s1: "job3_failed_once = [\<lparr>job_id = ''job3'', command = ''false'', state = PENDING, attempts = 1,
              max_retries = 2, created_at = 1, updated_at = 2, locked_at = None, locked_by = None\<rparr>]"
    unfolding job3_failed_once_def s0 by (simp add: example_defs)
  have d1: "distinct (map job_id job3_failed_once)" by (simp add: s1)
  have p1: "get_pending_jobs job3_failed_once = ?j1 # []"
    by (simp add: s1 get_pending_jobs_def row_to_job_def)
  have q2: "\<not> db_raises ?e2 GetPendingJobs" "\<not> db_raises ?e2 LockJob" "\<not> db_raises ?e2 UpdateJob"
    by (simp_all add: quiet_def)
  have f2: "(\<exists>rc. run ?e2 (command ?j1) = Returned rc \<and> rc \<noteq> 0)
          \<or> run ?e2 (command ?j1) = TimeoutExpired"
    by (simp add: quiet_def)
  have s2: "job3_failed_twice = [\<lparr>job_id = ''job3'', command = ''false'', state = DEAD, attempts = 2,
              max_retries = 2, created_at = 1, updated_at = 3, locked_at = None, locked_by = None\<rparr>]"
    unfolding job3_failed_twice_def s1 by (simp add: example_defs)
  show ?thesis
    using failed_execution_resolution[OF d0 p0 q1 f1, of "''worker1''"]
      failed_execution_resolution[OF d1 p1 q2 f2, of "''worker2''"]
    by (simp add: s0 s1 s2)
qed

text \<open>
  C6 as stated fails: when the runner itself errors, the job with \<open>max_retries = 3\<close> is
  back in state \<open>PENDING\<close> with \<open>attempts = 1\<close>, not in state \<open>FAILED\<close>.
\<close>

theorem runner_error_counterexample:
  "map (\<lambda>r. (state r, attempts r, locked_at r))
     (snd (process_next_job (quiet (\<lambda>_. RunnerError) 2) ''worker1'' job1_pending))
   = [(PENDING, 1, None)]"
  by (simp add: example_defs)

text \<open>
  C6 (as amended). When the runner itself errors, \<open>_execute_job\<close> returns \<open>False\<close> as
  for any failed execution. If the resolving \<open>update_job\<close> does not raise, the iteration
  increments \<open>attempts\<close> by one and resolves the job to \<open>DEAD\<close> if the new \<open>attempts\<close> is
  at least \<open>max_retries\<close>, to \<open>PENDING\<close> otherwise, not to \<open>FAILED\<close>; the lock is cleared
  by that write of \<open>update_job\<close>, and \<open>unlock_job\<close> is not called. If the resolving
  \<open>update_job\<close> raises and the handler's two calls of the store do not, the handler
  writes state \<open>FAILED\<close> with the incremented \<open>attempts\<close> through \<open>update_job\<close> and then
  calls \<open>unlock_job\<close>. In both cases the reads of the pending jobs and the claim are
  taken not to raise.
\<close>

theorem runner_error_resolution:
  assumes "distinct (map job_id s)"
    and "get_pending_jobs s = job # rest"
    and "\<not> db_raises env GetPendingJobs" "\<not> db_raises env LockJob"
    and "run env (command job) = RunnerError"
  shows "(\<not> db_raises env UpdateJob \<longrightarrow>
           (\<exists>r' s'. process_next_job env w s = (None, s')
              \<and> s' = update_job ((resolve False job)\<lparr>updated_at := t_resolve env\<rparr>)
                       (snd (lock_job (job_id job) w (t_lock env) (t_upd env) s))
              \<and> get_row (job_id job) s' = Some r'
              \<and> attempts r' = attempts job + 1
              \<and> state r' = (if attempts job + 1 \<ge> max_retries job then DEAD else PENDING)
              \<and> state r' \<noteq> FAILED
              \<and> locked_at r' = None \<and> locked_by r' = None))
       \<and> (db_raises env UpdateJob \<and> \<not> db_raises env HandlerUpdateJob
             \<and> \<not> db_raises env HandlerUnlockJob \<longrightarrow>
           (\<exists>r' s'. process_next_job env w s = (None, s')
              \<and> s' = unlock_job (job_id job) (t_unlock env)
                       (update_job ((resolve False job)
                                      \<lparr>updated_at := t_resolve env, state := FAILED,
                                       updated_at := t_handler env\<rparr>)
                          (snd (lock_job (job_id job) w (t_lock env) (t_upd env) s)))
              \<and> get_row (job_id job) s' = Some r'
              \<and> attempts r' = attempts job + 1
              \<and> state r' = FAILED
              \<and> locked_at r' = None \<and> locked_by r' = None))"
proof -
  from assms(5) have f: "\<not> execute_job (run env) job"
    by (simp add: execute_job_def)
  have a: "\<exists>r' s'. process_next_job env w s = (None, s')
              \<and> s' = update_job ((resolve False job)\<lparr>updated_at := t_resolve env\<rparr>)
                       (snd (lock_job (job_id job) w (t_lock env) (t_upd env) s))
              \<and> get_row (job_id job) s' = Some r'
              \<and> attempts r' = attempts job + 1
              \<and> state r' = (if attempts job + 1 \<ge> max_retries job then DEAD else PENDING)
              \<and> state r' \<noteq> FAILED
              \<and> locked_at r' = None \<and> locked_by r' = None"
    if u: "\<not> db_raises env UpdateJob"
    using tick_failed[OF assms(1-4) u f, of w] by auto
  have b: "\<exists>r' s'. process_next_job env w s = (None, s')
              \<and> s' = unlock_job (job_id job) (t_unlock env)
                       (update_job ((resolve False job)
                                      \<lparr>updated_at := t_resolve env, state := FAILED,
                                       updated_at := t_handler env\<rparr>)
                          (snd (lock_job (job_id job) w (t_lock env) (t_upd env) s)))
              \<and> get_row (job_id job) s' = Some r'
              \<and> attempts r' = attempts job + 1
              \<and> state r' = FAILED
              \<and> locked_at r' = None \<and> locked_by r' = None"
    if u: "db_raises env UpdateJob \<and> \<not> db_raises env HandlerUpdateJob
             \<and> \<not> db_raises env HandlerUnlockJob"
  proof -
    from u have u': "db_raises env UpdateJob" "\<not> db_raises env HandlerUpdateJob"
      "\<not> db_raises env HandlerUnlockJob" by simp_all
    have "attempts (resolve False job) = attempts job + 1"
      by (simp add: resolve_def Let_def)
    with tick_handler[OF assms(1-4) u', of w] f show ?thesis by auto
  qed
  from a b show ?thesis by blast
qed

theorem runner_error_resolution_witness:
  "(\<exists>r' s'. process_next_job (quiet (\<lambda>_. RunnerError) 2) ''worker1'' job1_pending = (None, s')
      \<and> get_row ''job1'' s' = Some r' \<and> attempts r' = 1 \<and> state r' = PENDING
      \<and> locked_at r' = None \<and> locked_by r' = None)
 \<and> (\<exists>r' s'. process_next_job update_refused ''worker1'' job1_pending = (None, s')
      \<and> get_row ''job1'' s' = Some r' \<and> attempts r' = 1 \<and> state r' = FAILED
      \<and> locked_at r' = None \<and> locked_by r' = None)"
proof -
  let ?j = "\<lparr>job_id = ''job1'', command = ''echo ok'', state = PENDING, attempts = 0,
             max_retries = 3, created_at = 1, updated_at = 1\<rparr>"
  let ?e = "quiet (\<lambda>_. RunnerError) 2"
  have s0: "job1_pending = [\<lparr>job_id = ''job1'', command = ''echo ok'', state = PENDING,
              attempts = 0, max_retries = 3, created_at = 1, updated_at = 1,
              locked_at = None, locked_by = None\<rparr>]"
    by (simp add: example_defs)
  have d: "distinct (map job_id job1_pending)" by (simp add: s0)
  have p: "get_pending_jobs job1_pending = ?j # []"
    by (simp add: s0 get_pending_jobs_def row_to_job_def)
  have q: "\<not> db_raises ?e GetPendingJobs" "\<not> db_raises ?e LockJob"
    by (simp_all add: quiet_def)
  have f: "run ?e (command ?j) = RunnerError" by (simp add: quiet_def)
  have u: "\<not> db_raises ?e UpdateJob" by (simp add: quiet_def)
  have q': "\<not> db_raises update_refused GetPendingJobs" "\<not> db_raises update_refused LockJob"
    by (simp_all add: update_refused_def quiet_def)
  have f': "run update_refused (command ?j) = RunnerError"
    by (simp add: update_refused_def quiet_def)
  have u': "db_raises update_refused UpdateJob \<and> \<not> db_raises update_refused HandlerUpdateJob
             \<and> \<not> db_raises update_refused HandlerUnlockJob"
    by (simp add: update_refused_def quiet_def)
  have a: "\<exists>r' s'. process_next_job ?e ''worker1'' job1_pending = (None, s')
      \<and> get_row ''job1'' s' = Some r' \<and> attempts r' = 1 \<and> state r' = PENDING
      \<and> locked_at r' = None \<and> locked_by r' = None"
    using runner_error_resolution[OF d p q f, of "''worker1''"] u by auto
  have b: "\<exists>r' s'. process_next_job update_refused ''worker1'' job1_pending = (None, s')
      \<and> get_row ''job1'' s' = Some r' \<and> attempts r' = 1 \<and> state r' = FAILED
      \<and> locked_at r' = None \<and> locked_by r' = None"
    using runner_error_resolution[OF d p q' f', of "''worker1''"] u' by auto
  from a b show ?thesis by blast
qed

section \<open>Enqueueing a job\<close>

text \<open>
  C5 as stated fails: \<open>enqueue\<close> with the empty command raises nothing and creates the
  job.
\<close>

theorem enqueue_empty_command_counterexample:
  "enqueue DEFAULTS [] (Some ''job1'') None ''3f2b8c1e-7a4d-4e2b-9c1a-5d6e7f8a9b0c'' 1 1 []
     = (Inr \<lparr>job_id = ''job1'', command = [], state = PENDING, attempts = 0,
              max_retries = 3, created_at = 1, updated_at = 1\<rparr>,
        [\<lparr>job_id = ''job1'', command = [], state = PENDING, attempts = 0,
          max_retries = 3, created_at = 1, updated_at = 1,
          locked_at = None, locked_by = None\<rparr>])"
  by (simp add: example_defs)

text \<open>
  C5 (as amended). \<open>enqueue\<close> does not look at the command. For every command, the
  empty one included, when the id (the one given, or the first twelve characters of the
  generated one) is not in the table yet, \<open>enqueue\<close> returns the job with that command,
  state \<open>PENDING\<close> and \<open>attempts = 0\<close> and appends its row, without a lock; when the id
  is in the table already, it raises \<open>IntegrityError\<close> and the table is unchanged.
\<close>

theorem enqueue_no_validation:
  assumes "jid = (case jid_arg of None \<Rightarrow> take 12 uuid
                  | Some j \<Rightarrow> if j = [] then take 12 uuid else j)"
  shows "(jid \<notin> set (map job_id s) \<longrightarrow>
           (\<exists>job. enqueue cfg cmd jid_arg mr uuid t1 t2 s
                    = (Inr job,
                       s @ [\<lparr>job_id = jid, command = cmd, state = PENDING, attempts = 0,
                             max_retries = max_retries job, created_at = t1, updated_at = t2,
                             locked_at = None, locked_by = None\<rparr>])
                 \<and> job_id job = jid \<and> command job = cmd
                 \<and> state job = PENDING \<and> attempts job = 0))
       \<and> (jid \<in> set (map job_id s) \<longrightarrow>
             enqueue cfg cmd jid_arg mr uuid t1 t2 s = (Inl IntegrityError, s))"
  using assms by (simp add: enqueue_def add_job_def Let_def)

theorem enqueue_no_validation_witness:
  "(\<exists>job. enqueue DEFAULTS [] (Some ''job1'') None ''3f2b8c1e-7a4d-4e2b-9c1a-5d6e7f8a9b0c'' 1 1 []
            = (Inr job, [\<lparr>job_id = ''job1'', command = [], state = PENDING, attempts = 0,
                            max_retries = max_retries job, created_at = 1, updated_at = 1,
                            locked_at = None, locked_by = None\<rparr>])
          \<and> job_id job = ''job1'' \<and> command job = [] \<and> state job = PENDING \<and> attempts job = 0)
 \<and> (\<exists>job. enqueue DEFAULTS ''echo ok'' None None ''3f2b8c1e-7a4d-4e2b-9c1a-5d6e7f8a9b0c'' 4 4 job1_pending
            = (Inr job, job1_pending @ [\<lparr>job_id = ''3f2b8c1e-7a4'', command = ''echo ok'', state = PENDING, attempts = 0,
                            max_retries = max_retries job, created_at = 4, updated_at = 4,
                            locked_at = None, locked_by = None\<rparr>])
          \<and> job_id job = ''3f2b8c1e-7a4'' \<and> command job = ''echo ok'' \<and> state job = PENDING \<and> attempts job = 0)
 \<and> enqueue DEFAULTS ''echo again'' (Some ''job1'') None ''3f2b8c1e-7a4d-4e2b-9c1a-5d6e7f8a9b0c'' 4 4 job1_pending
       = (Inl IntegrityError, job1_pending)"
proof -
  have a: "''job1'' \<notin> set (map job_id ([] :: store))" by simp
  have b: "''3f2b8c1e-7a4'' \<notin> set (map job_id job1_pending)" by (simp add: example_defs)
  have c: "''job1'' \<in> set (map job_id job1_pending)" by (simp add: example_defs)
  show ?thesis
    using enqueue_no_validation[where jid="''job1''" and jid_arg="Some ''job1''" and uuid="''3f2b8c1e-7a4d-4e2b-9c1a-5d6e7f8a9b0c''"
        and s="[]" and cfg=DEFAULTS and cmd="[]" and mr=None and ?t1.0=1 and ?t2.0=1] a
      enqueue_no_validation[where jid="''3f2b8c1e-7a4''" and jid_arg=None and uuid="''3f2b8c1e-7a4d-4e2b-9c1a-5d6e7f8a9b0c''"
        and s=job1_pending and cfg=DEFAULTS and cmd="''echo ok''" and mr=None and ?t1.0=4 and ?t2.0=4] b
      enqueue_no_validation[where jid="''job1''" and jid_arg="Some ''job1''" and uuid="''3f2b8c1e-7a4d-4e2b-9c1a-5d6e7f8a9b0c''"
        and s=job1_pending and cfg=DEFAULTS and cmd="''echo again''" and mr=None and ?t1.0=4 and ?t2.0=4] c
    by simp
qed

section \<open>The default of \<open>max_retries\<close>\<close>

text \<open>
  C10 as stated fails: when the configuration has \<open>max_retries = 0\<close>, \<open>enqueue\<close> with
  \<open>max_retries = 0\<close> creates a job whose \<open>max_retries\<close> is 0; and when it has
  \<open>max_retries = 2\<close>, the job's \<open>max_retries\<close> is 2, not 3.
\<close>

theorem enqueue_zero_default_counterexample:
  "enqueue retries_zero ''echo ok'' (Some ''job1'') (Some 0)
     ''3f2b8c1e-7a4d-4e2b-9c1a-5d6e7f8a9b0c'' 1 1 []
     = (Inr \<lparr>job_id = ''job1'', command = ''echo ok'', state = PENDING, attempts = 0,
              max_retries = 0, created_at = 1, updated_at = 1\<rparr>,
        [\<lparr>job_id = ''job1'', command = ''echo ok'', state = PENDING, attempts = 0,
          max_retries = 0, created_at = 1, updated_at = 1,
          locked_at = None, locked_by = None\<rparr>])
 \<and> map max_retries
       (snd (enqueue retries_two ''echo ok'' (Some ''job1'') (Some 0)
               ''3f2b8c1e-7a4d-4e2b-9c1a-5d6e7f8a9b0c'' 1 1 [])) = [2]"
  by (simp add: retries_zero_def retries_two_def example_defs)

text \<open>
  C10 (as amended). For every configuration and every command, when the id is new,
  \<open>enqueue\<close> with \<open>max_retries = 0\<close> creates a job whose \<open>max_retries\<close> is the configured
  default: the value of \<open>max_retries\<close> in the configuration, and 3 when the
  configuration has none. For every value of the argument, given or omitted, the job
  created has \<open>max_retries = 0\<close> exactly when the argument is omitted or 0 and the
  configuration has \<open>max_retries = 0\<close>.
\<close>

theorem enqueue_zero_max_retries:
  assumes "(case jid_arg of None \<Rightarrow> take 12 uuid
            | Some j \<Rightarrow> if j = [] then take 12 uuid else j) \<notin> set (map job_id s)"
  shows "(\<exists>job s'. enqueue cfg cmd jid_arg (Some 0) uuid t1 t2 s = (Inr job, s')
            \<and> max_retries job = (case cfg ''max_retries'' of None \<Rightarrow> 3 | Some d \<Rightarrow> d)
            \<and> map max_retries s' = map max_retries s @ [max_retries job])
       \<and> (\<forall>mr. \<exists>job s'. enqueue cfg cmd jid_arg mr uuid t1 t2 s = (Inr job, s')
            \<and> map max_retries s' = map max_retries s @ [max_retries job]
            \<and> (max_retries job = 0
                  \<longleftrightarrow> (mr = None \<or> mr = Some 0) \<and> cfg ''max_retries'' = Some 0))"
  using assms
  by (auto simp: enqueue_def add_job_def config_get_def Let_def split: option.splits)

theorem enqueue_zero_max_retries_witness:
  "(\<exists>job s'. enqueue DEFAULTS ''echo ok'' (Some ''job1'') (Some 0)
                ''3f2b8c1e-7a4d-4e2b-9c1a-5d6e7f8a9b0c'' 1 1 [] = (Inr job, s')
       \<and> max_retries job = 3 \<and> map max_retries s' = [3])
 \<and> (\<exists>job s'. enqueue retries_two ''echo ok'' (Some ''job1'') (Some 0)
                ''3f2b8c1e-7a4d-4e2b-9c1a-5d6e7f8a9b0c'' 1 1 [] = (Inr job, s')
       \<and> max_retries job = 2 \<and> map max_retries s' = [2])
 \<and> (\<exists>job s'. enqueue retries_zero ''echo ok'' (Some ''job1'') None
                ''3f2b8c1e-7a4d-4e2b-9c1a-5d6e7f8a9b0c'' 1 1 [] = (Inr job, s')
       \<and> max_retries job = 0)"
proof -
  have b: "(case Some ''job1'' of None \<Rightarrow> take 12 ''3f2b8c1e-7a4d-4e2b-9c1a-5d6e7f8a9b0c''
          | Some j \<Rightarrow> if j = [] then take 12 ''3f2b8c1e-7a4d-4e2b-9c1a-5d6e7f8a9b0c'' else j)
            \<notin> set (map job_id ([] :: store))"
    by simp
  have c3: "DEFAULTS ''max_retries'' = Some 3" by (simp add: DEFAULTS_def)
  have c2: "retries_two ''max_retries'' = Some 2" by (simp add: retries_two_def)
  have c0: "retries_zero ''max_retries'' = Some 0" by (simp add: retries_zero_def)
  note th = enqueue_zero_max_retries[OF b, where cmd="''echo ok''" and ?t1.0=1 and ?t2.0=1]
  have x: "\<exists>job s'. enqueue DEFAULTS ''echo ok'' (Some ''job1'') (Some 0)
                ''3f2b8c1e-7a4d-4e2b-9c1a-5d6e7f8a9b0c'' 1 1 [] = (Inr job, s')
       \<and> max_retries job = 3 \<and> map max_retries s' = [3]"
    using th[where cfg=DEFAULTS, THEN conjunct1] c3 by auto
  have y: "\<exists>job s'. enqueue retries_two ''echo ok'' (Some ''job1'') (Some 0)
                ''3f2b8c1e-7a4d-4e2b-9c1a-5d6e7f8a9b0c'' 1 1 [] = (Inr job, s')
       \<and> max_retries job = 2 \<and> map max_retries s' = [2]"
    using th[where cfg=retries_two, THEN conjunct1] c2 by auto
  have z: "\<exists>job s'. enqueue retries_zero ''echo ok'' (Some ''job1'') None
                ''3f2b8c1e-7a4d-4e2b-9c1a-5d6e7f8a9b0c'' 1 1 [] = (Inr job, s')
       \<and> max_retries job = 0"
    using th[where cfg=retries_zero, THEN conjunct2, THEN spec, of None] c0 by auto
  from x y z show ?thesis by blast
qed

section \<open>Statistics\<close>

lemma UNIV_JobState: "(UNIV :: JobState set) = {PENDING, PROCESSING, COMPLETED, FAILED, DEAD}"
proof -
  have "x \<in> {PENDING, PROCESSING, COMPLETED, FAILED, DEAD}" for x :: JobState
    by (cases x) simp_all
  then show ?thesis by blast
qed

lemma map_of_foldl_update:
  "distinct (map fst xs) \<Longrightarrow>
   map_of (foldl (\<lambda>d (k, v). AList.update k v d) acc xs) k
     = (case map_of xs k of Some v \<Rightarrow> Some v | None \<Rightarrow> map_of acc k)"
proof (induction xs arbitrary: acc)
  case Nil
  then show ?case by simp
next
  case (Cons p xs)
  obtain a b where p: "p = (a, b)" by (cases p)
  from Cons.prems p have na: "map_of xs a = None"
    by (simp add: map_of_eq_None_iff)
  from Cons.prems have "distinct (map fst xs)" by simp
  from Cons.IH[OF this, of "AList.update a b acc"] p na show ?case
    by (auto simp: update_conv' split: option.splits)
qed

lemma distinct_foldl_update:
  "distinct (map fst acc) \<Longrightarrow>
   distinct (map fst (foldl (\<lambda>d (k, v). AList.update k v d) acc xs))"
  by (induction xs arbitrary: acc) (auto simp: distinct_update)

lemma map_of_setdefault:
  "map_of (setdefault k v d) k' = (if k' = k \<and> map_of d k = None then Some v else map_of d k')"
  by (auto simp: setdefault_def update_conv' split: option.splits)

lemma distinct_setdefault:
  "distinct (map fst d) \<Longrightarrow> distinct (map fst (setdefault k v d))"
  by (simp add: setdefault_def distinct_update split: option.splits)

lemma map_of_foldl_setdefault:
  "map_of (foldl (\<lambda>d k. setdefault k v d) d ks) k'
     = (case map_of d k' of Some x \<Rightarrow> Some x
        | None \<Rightarrow> if k' \<in> set ks then Some v else None)"
  by (induction ks arbitrary: d) (auto simp: map_of_setdefault split: option.splits)

lemma distinct_foldl_setdefault:
  "distinct (map fst d) \<Longrightarrow> distinct (map fst (foldl (\<lambda>d k. setdefault k v d) d ks))"
  by (induction ks arbitrary: d) (auto simp: distinct_setdefault)

lemma map_of_group_by_state:
  "map_of (group_by_state s) st
     = (if st \<in> set (map state s) then Some (length (filter (\<lambda>r. state r = st) s)) else None)"
  by (simp add: group_by_state_def map_of_map_restrict restrict_map_def)

lemma distinct_group_by_state: "distinct (map fst (group_by_state s))"
  by (simp add: group_by_state_def comp_def)

lemma filter_state_empty:
  "st \<notin> set (map state s) \<Longrightarrow> filter (\<lambda>r. state r = st) s = []"
  by (auto simp: filter_empty_conv)

lemma map_of_get_stats:
  "map_of (get_stats s) st = Some (length (filter (\<lambda>r. state r = st) s))"
proof -
  have "st \<in> set all_states" by (cases st) (simp_all add: all_states_def)
  then show ?thesis
    using filter_state_empty[of st s]
    by (auto simp: get_stats_def map_of_foldl_setdefault map_of_foldl_update
          distinct_group_by_state map_of_group_by_state split: option.splits)
qed

lemma distinct_get_stats: "distinct (map fst (get_stats s))"
  by (simp add: get_stats_def distinct_foldl_setdefault distinct_foldl_update)

lemma keys_get_stats: "set (map fst (get_stats s)) = UNIV"
proof -
  have "dom (map_of (get_stats s)) = UNIV"
    by (auto simp: map_of_get_stats)
  then show ?thesis by (simp add: dom_map_of_conv_image_fst)
qed

lemma snd_by_lookup:
  "distinct (map fst d) \<Longrightarrow> map snd d = map (\<lambda>k. the (map_of d k)) (map fst d)"
proof (induction d)
  case Nil
  then show ?case by simp
next
  case (Cons p d)
  obtain a b where p: "p = (a, b)" by (cases p)
  from Cons.prems p have na: "a \<notin> set (map fst d)" and dd: "distinct (map fst d)"
    by simp_all
  have "map (\<lambda>k. the (map_of (p # d) k)) (map fst d) = map (\<lambda>k. the (map_of d k)) (map fst d)"
  proof (rule map_cong[OF refl])
    fix k assume "k \<in> set (map fst d)"
    with na have "k \<noteq> a" by blast
    with p show "the (map_of (p # d) k) = the (map_of d k)" by simp
  qed
  with Cons.IH[OF dd] p show ?case by simp
qed

lemma count_states_length:
  "length (filter (\<lambda>r. state r = PENDING) s) + length (filter (\<lambda>r. state r = PROCESSING) s)
   + length (filter (\<lambda>r. state r = COMPLETED) s) + length (filter (\<lambda>r. state r = FAILED) s)
   + length (filter (\<lambda>r. state r = DEAD) s) = length (s :: store)"
proof (induction s)
  case Nil
  then show ?case by simp
next
  case (Cons r s)
  then show ?case by (cases "state r") simp_all
qed

lemma total_get_stats:
  "sum_list (map snd (get_stats s)) = length s"
proof -
  let ?c = "\<lambda>st. length (filter (\<lambda>r. state r = st) s)"
  have "map snd (get_stats s) = map (\<lambda>k. the (map_of (get_stats s) k)) (map fst (get_stats s))"
    by (rule snd_by_lookup[OF distinct_get_stats])
  then have "map snd (get_stats s) = map ?c (map fst (get_stats s))"
    by (simp only: map_of_get_stats option.sel)
  then have "sum_list (map snd (get_stats s)) = sum_list (map ?c (map fst (get_stats s)))"
    by (rule arg_cong)
  also have "\<dots> = sum ?c (set (map fst (get_stats s)))"
    using sum_list_distinct_conv_sum_set[OF distinct_get_stats, of ?c s] by simp
  also have "\<dots> = sum ?c {PENDING, PROCESSING, COMPLETED, FAILED, DEAD}"
    by (simp only: keys_get_stats UNIV_JobState)
  also have "\<dots> = length s"
    using count_states_length[of s] by simp
  finally show ?thesis .
qed

text \<open>
  C9. For every table, the empty one included, the dictionary of \<open>Database.get_stats\<close>
  has an entry for each of the five states, whose value is the number of jobs in that
  state (zero when there is none); the \<open>total\<close> of \<open>QueueManager.get_stats\<close> is the sum
  of its five named counts, and it is the number of jobs of the table.
\<close>

theorem stats_total:
  "(\<forall>st. map_of (get_stats s) st = Some (length (filter (\<lambda>r. state r = st) s)))
 \<and> set (map fst (get_stats s)) = {PENDING, PROCESSING, COMPLETED, FAILED, DEAD}
 \<and> total (qm_get_stats s)
     = pending (qm_get_stats s) + processing (qm_get_stats s) + completed (qm_get_stats s)
       + failed (qm_get_stats s) + dead (qm_get_stats s)
 \<and> total (qm_get_stats s) = length s
 \<and> total (qm_get_stats s) = sum_list (map snd (get_stats s))
 \<and> get_stats [] = [(PENDING, 0), (PROCESSING, 0), (COMPLETED, 0), (FAILED, 0), (DEAD, 0)]
 \<and> total (qm_get_stats []) = 0"
proof -
  have a: "\<forall>st. map_of (get_stats s) st = Some (length (filter (\<lambda>r. state r = st) s))"
    by (simp add: map_of_get_stats)
  have b: "set (map fst (get_stats s)) = {PENDING, PROCESSING, COMPLETED, FAILED, DEAD}"
    by (simp only: keys_get_stats UNIV_JobState)
  have t: "total (qm_get_stats s) = sum_list (map snd (get_stats s))"
    by (simp add: qm_get_stats_def Let_def)
  have c: "total (qm_get_stats s) = length s"
    by (simp add: t total_get_stats)
  have d: "total (qm_get_stats s)
     = pending (qm_get_stats s) + processing (qm_get_stats s) + completed (qm_get_stats s)
       + failed (qm_get_stats s) + dead (qm_get_stats s)"
    using count_states_length[of s]
    by (simp add: c) (simp add: qm_get_stats_def Let_def dict_get_def map_of_get_stats)
  have e: "get_stats [] = [(PENDING, 0), (PROCESSING, 0), (COMPLETED, 0), (FAILED, 0), (DEAD, 0)]"
    by (simp add: get_stats_def group_by_state_def all_states_def setdefault_def)
  have f: "total (qm_get_stats []) = 0"
    by (simp add: qm_get_stats_def Let_def e)
  from a b c d t e f show ?thesis by blast
qed


section \<open>The retry budget\<close>

lemma map_job_id_upd:
  "(\<And>r. job_id (f r) = job_id r) \<Longrightarrow>
   map job_id (map (\<lambda>r. if job_id r = j then f r else r) s) = map job_id s"
  by (induction s) auto

lemma ids_update_job [simp]: "map job_id (update_job j s) = map job_id s"
  by (simp add: update_job_def map_job_id_upd)

lemma ids_lock_job_update [simp]: "map job_id (snd (lock_job_update jid w t1 t2 s)) = map job_id s"
  by (simp add: lock_job_update_def map_job_id_upd)

lemma ids_lock_job [simp]: "map job_id (snd (lock_job jid w t1 t2 s)) = map job_id s"
  by (simp add: lock_job_def)

lemma ids_unlock_job [simp]: "map job_id (unlock_job jid now s) = map job_id s"
  by (simp add: unlock_job_def map_job_id_upd)

lemma budget_update_job:
  "\<forall>r \<in> set s. within_budget r \<Longrightarrow> within_budget j
     \<Longrightarrow> \<forall>r \<in> set (update_job j s). within_budget r"
  by (auto simp: update_job_def within_budget_def)

lemma budget_lock_job:
  "\<forall>r \<in> set s. within_budget r \<Longrightarrow> \<forall>r \<in> set (snd (lock_job jid w t1 t2 s)). within_budget r"
  by (auto simp: lock_job_def lock_job_update_def within_budget_def)

lemma budget_unlock_job:
  "\<forall>r \<in> set s. within_budget r \<Longrightarrow> \<forall>r \<in> set (unlock_job jid now s). within_budget r"
  by (auto simp: unlock_job_def within_budget_def)

lemma budget_resolve:
  "within_budget j \<Longrightarrow> state j = PENDING \<Longrightarrow> within_budget ((resolve b j)\<lparr>updated_at := t\<rparr>)"
  by (auto simp: resolve_def within_budget_def Let_def)

lemma budget_resolve_failed:
  "within_budget j \<Longrightarrow> state j = PENDING
     \<Longrightarrow> within_budget ((resolve b j)\<lparr>updated_at := t, state := FAILED, updated_at := t'\<rparr>)"
  by (auto simp: resolve_def within_budget_def Let_def)

lemma budget_row_to_job: "within_budget (row_to_job r) = within_budget r"
  by (simp add: within_budget_def)

lemma table_ok_tick:
  assumes "table_ok s"
  shows "table_ok (snd (process_next_job env w s))"
proof (cases "get_pending_jobs s")
  case Nil
  with assms show ?thesis by (simp add: process_next_job_def)
next
  case (Cons job rest)
  from get_pending_jobs_head[OF Cons] obtain r where
    r: "r \<in> set s" "row_to_job r = job" "state r = PENDING" by blast
  with assms have jb: "within_budget job" "state job = PENDING"
    using budget_row_to_job[of r] by (auto simp: table_ok_def)
  let ?l = "lock_job (job_id job) w (t_lock env) (t_upd env) s"
  let ?J = "(resolve (execute_job (run env) job) job)\<lparr>updated_at := t_resolve env\<rparr>"
  have l: "table_ok (snd ?l)"
    using assms budget_lock_job[of s] by (simp add: table_ok_def)
  have u1: "table_ok (update_job ?J (snd ?l))"
    using l budget_update_job[OF _ budget_resolve[OF jb], of "snd ?l"]
    by (simp add: table_ok_def)
  let ?F = "?J\<lparr>state := FAILED, updated_at := t_handler env\<rparr>"
  have u2: "table_ok (update_job ?F (snd ?l))"
    using l budget_update_job[OF _ budget_resolve_failed[OF jb], of "snd ?l"]
    by (simp add: table_ok_def)
  have u3: "table_ok (unlock_job (job_id job) (t_unlock env) (update_job ?F (snd ?l)))"
    using u2 budget_unlock_job[of "update_job ?F (snd ?l)"] by (simp add: table_ok_def)
  show ?thesis
    using assms l u1 u2 u3 Cons
    by (cases ?l) (auto simp: process_next_job_def Let_def split: bool.splits)
qed

lemma table_ok_enqueue:
  assumes "table_ok s" and "budget_given cfg (Enqueue cmd jid_arg mr uuid t1 t2)"
  shows "table_ok (snd (enqueue cfg cmd jid_arg mr uuid t1 t2 s))"
  using assms
  by (auto simp: enqueue_def add_job_def Let_def table_ok_def within_budget_def
        split: option.splits)

lemma table_ok_retry:
  assumes "table_ok s"
  shows "table_ok (snd (retry_dlq_job jid now s))"
proof (cases "get_row jid s")
  case None
  with assms show ?thesis by (simp add: retry_dlq_job_def get_job_def)
next
  case (Some r)
  then have "r \<in> set s" by (auto simp: get_row_def find_Some_iff in_set_conv_nth)
  with assms have b: "within_budget r" by (simp add: table_ok_def)
  then have "within_budget ((row_to_job r)\<lparr>state := PENDING, attempts := 0, updated_at := now\<rparr>)"
    by (auto simp: within_budget_def)
  with assms Some show ?thesis
    using budget_update_job[of s "(row_to_job r)\<lparr>state := PENDING, attempts := 0, updated_at := now\<rparr>"]
    by (simp add: retry_dlq_job_def get_job_def Let_def table_ok_def)
qed

lemma table_ok_apply:
  "table_ok s \<Longrightarrow> budget_given cfg oper \<Longrightarrow> table_ok (apply_operation cfg oper s)"
proof (cases oper)
  case (Enqueue cmd jid_arg mr uuid t1 t2)
  assume "table_ok s" "budget_given cfg oper"
  with Enqueue show ?thesis using table_ok_enqueue by simp
next
  case (Tick env w)
  assume "table_ok s"
  with Tick show ?thesis by (simp add: table_ok_tick)
next
  case (RetryDLQ jid now)
  assume "table_ok s"
  with RetryDLQ show ?thesis by (simp add: table_ok_retry)
next
  case (Claim jid w t1 t2)
  assume "table_ok s"
  with Claim show ?thesis using budget_lock_job[of s] by (simp add: table_ok_def)
next
  case (Release jid now)
  assume "table_ok s"
  with Release show ?thesis using budget_unlock_job[of s] by (simp add: table_ok_def)
qed

lemma table_ok_run:
  "table_ok s \<Longrightarrow> list_all (budget_given cfg) ops \<Longrightarrow> table_ok (run_operations cfg ops s)"
  unfolding run_operations_def
  by (induction ops arbitrary: s) (auto simp: table_ok_apply)


text \<open>
  C7. In every table reached from the empty one by a sequence of operations whose
  \<open>enqueue\<close>s give \<open>max_retries\<close> at least 1, every row has \<open>attempts\<close> at most
  \<open>max_retries\<close>, and a row in state \<open>DEAD\<close> has \<open>attempts = max_retries\<close>. A failed
  execution in such a table increments \<open>attempts\<close> and leaves the job \<open>DEAD\<close> exactly
  when the new \<open>attempts\<close> equals \<open>max_retries\<close>, and \<open>PENDING\<close> exactly when it is
  smaller.
\<close>

theorem retry_budget_invariant:
  assumes "list_all (budget_given cfg) ops"
  shows "(\<forall>r \<in> set (run_operations cfg ops []).
            attempts r \<le> max_retries r \<and> (state r = DEAD \<longrightarrow> attempts r = max_retries r))
       \<and> (\<forall>env w job rest.
             get_pending_jobs (run_operations cfg ops []) = job # rest
             \<and> \<not> db_raises env GetPendingJobs \<and> \<not> db_raises env LockJob
             \<and> \<not> db_raises env UpdateJob \<and> \<not> execute_job (run env) job
             \<longrightarrow> (\<exists>r'. get_row (job_id job)
                          (snd (process_next_job env w (run_operations cfg ops []))) = Some r'
                     \<and> attempts r' = attempts job + 1 \<and> attempts r' \<le> max_retries r'
                     \<and> (state r' = DEAD \<longleftrightarrow> attempts r' = max_retries r')
                     \<and> (state r' = PENDING \<longleftrightarrow> attempts r' < max_retries r')))"
proof -
  let ?s = "run_operations cfg ops []"
  have "table_ok []" by (simp add: table_ok_def)
  from table_ok_run[OF this assms] have ok: "table_ok ?s" .
  have a: "\<forall>r \<in> set ?s.
            attempts r \<le> max_retries r \<and> (state r = DEAD \<longrightarrow> attempts r = max_retries r)"
    using ok by (simp add: table_ok_def within_budget_def)
  have b: "\<exists>r'. get_row (job_id job) (snd (process_next_job env w ?s)) = Some r'
                     \<and> attempts r' = attempts job + 1 \<and> attempts r' \<le> max_retries r'
                     \<and> (state r' = DEAD \<longleftrightarrow> attempts r' = max_retries r')
                     \<and> (state r' = PENDING \<longleftrightarrow> attempts r' < max_retries r')"
    if h: "get_pending_jobs ?s = job # rest
             \<and> \<not> db_raises env GetPendingJobs \<and> \<not> db_raises env LockJob
             \<and> \<not> db_raises env UpdateJob \<and> \<not> execute_job (run env) job"
    for env w job rest
  proof -
    from h have p: "get_pending_jobs ?s = job # rest" by simp
    from get_pending_jobs_head[OF p] obtain r where
      r: "r \<in> set ?s" "row_to_job r = job" "state r = PENDING" by blast
    with ok have "within_budget r" by (simp add: table_ok_def)
    with r have lt: "attempts job < max_retries job"
      by (auto simp: within_budget_def row_to_job_def)
    from ok have d: "distinct (map job_id ?s)" by (simp add: table_ok_def)
    from h have q: "\<not> db_raises env GetPendingJobs" "\<not> db_raises env LockJob"
      "\<not> db_raises env UpdateJob" "\<not> execute_job (run env) job" by simp_all
    from tick_failed[OF d p q, of w] obtain r' s' where
      t: "process_next_job env w ?s = (None, s')" "get_row (job_id job) s' = Some r'"
         "attempts r' = attempts job + 1" "max_retries r' = max_retries job"
         "state r' = (if attempts job + 1 \<ge> max_retries job then DEAD else PENDING)"
      by blast
    from t lt show ?thesis by auto
  qed
  from a b show ?thesis by blast
qed

theorem retry_budget_invariant_witness:
  "list_all (budget_given DEFAULTS) job3_operations
 \<and> run_operations DEFAULTS job3_operations [] = job3_failed_once
 \<and> map (\<lambda>r. (state r, attempts r, max_retries r)) job3_failed_once = [(PENDING, 1, 2)]
 \<and> (\<exists>r'. get_row ''job3''
             (snd (process_next_job (quiet (\<lambda>_. TimeoutExpired) 3) ''worker2'' job3_failed_once))
           = Some r'
        \<and> attempts r' = 2 \<and> max_retries r' = 2 \<and> state r' = DEAD)"
proof -
  let ?j1 = "\<lparr>job_id = ''job3'', command = ''false'', state = PENDING, attempts = 1,
              max_retries = 2, created_at = 1, updated_at = 2\<rparr>"
  let ?e2 = "quiet (\<lambda>_. TimeoutExpired) 3"
  have b: "list_all (budget_given DEFAULTS) job3_operations"
    by (simp add: job3_operations_def)
  have s1: "job3_failed_once = [\<lparr>job_id = ''job3'', command = ''false'', state = PENDING,
              attempts = 1, max_retries = 2, created_at = 1, updated_at = 2,
              locked_at = None, locked_by = None\<rparr>]"
    by (simp add: example_defs)
  have run: "run_operations DEFAULTS job3_operations [] = job3_failed_once"
    by (simp add: run_operations_def job3_operations_def job3_failed_once_def job3_enqueued_def)
  have p: "get_pending_jobs job3_failed_once = ?j1 # []"
    by (simp add: s1 get_pending_jobs_def row_to_job_def)
  have h: "get_pending_jobs (run_operations DEFAULTS job3_operations []) = ?j1 # []
             \<and> \<not> db_raises ?e2 GetPendingJobs \<and> \<not> db_raises ?e2 LockJob
             \<and> \<not> db_raises ?e2 UpdateJob \<and> \<not> execute_job (run ?e2) ?j1"
    by (simp add: run p quiet_def execute_job_def)
  from retry_budget_invariant[OF b] have
    "\<forall>env w job rest.
       get_pending_jobs (run_operations DEFAULTS job3_operations []) = job # rest
       \<and> \<not> db_raises env GetPendingJobs \<and> \<not> db_raises env LockJob
       \<and> \<not> db_raises env UpdateJob \<and> \<not> execute_job (run env) job
       \<longrightarrow> (\<exists>r'. get_row (job_id job)
                    (snd (process_next_job env w (run_operations DEFAULTS job3_operations []))) = Some r'
               \<and> attempts r' = attempts job + 1 \<and> attempts r' \<le> max_retries r'
               \<and> (state r' = DEAD \<longleftrightarrow> attempts r' = max_retries r')
               \<and> (state r' = PENDING \<longleftrightarrow> attempts r' < max_retries r'))"
    by (rule conjunct2)
  from this[rule_format, OF h, of "''worker2''"] have
    "\<exists>r'. get_row ''job3''
             (snd (process_next_job ?e2 ''worker2'' job3_failed_once)) = Some r'
        \<and> attempts r' = 2 \<and> attempts r' \<le> max_retries r'
        \<and> (state r' = DEAD \<longleftrightarrow> attempts r' = max_retries r')
        \<and> (state r' = PENDING \<longleftrightarrow> attempts r' < max_retries r')"
    by (simp add: run)
  moreover have "get_row ''job3'' (snd (process_next_job ?e2 ''worker2'' job3_failed_once))
     = Some \<lparr>job_id = ''job3'', command = ''false'', state = DEAD,
              attempts = 2, max_retries = 2, created_at = 1, updated_at = 3,
              locked_at = None, locked_by = None\<rparr>"
    unfolding s1 by (simp add: example_defs)
  moreover have "map (\<lambda>r. (state r, attempts r, max_retries r)) job3_failed_once = [(PENDING, 1, 2)]"
    by (simp add: s1)
  ultimately show ?thesis using b run by simp
qed


section \<open>The polling loop and errors of the store\<close>

text \<open>
  An iteration in which no call of the store raises lets no exception escape, whatever
  the runner reports.
\<close>

lemma process_next_job_quiet:
  "(\<And>c. \<not> db_raises env c) \<Longrightarrow> fst (process_next_job env w s) = None"
  by (auto simp: process_next_job_def Let_def split: list.splits prod.splits bool.splits)

text \<open>
  C8, at a failing input. The job is claimed, its command fails, and both writes of the
  resolution raise: the exception of the handler's \<open>update_job\<close> escapes
  \<open>_process_next_job\<close> and \<open>Worker.start\<close>, which catches \<open>KeyboardInterrupt\<close> only. The
  loop ends with no shutdown signal, the second iteration of the schedule is not run,
  and the job stays claimed in state \<open>PROCESSING\<close>.
\<close>

theorem start_write_failure_escapes:
  "start ''worker1'' [(write_failure, False), (quiet (\<lambda>_. Returned 0) 5, False)] job1_pending
     = (Escaped OperationalError,
        [\<lparr>job_id = ''job1'', command = ''echo ok'', state = PROCESSING, attempts = 0,
          max_retries = 3, created_at = 1, updated_at = 2,
          locked_at = Some 2, locked_by = Some ''worker1''\<rparr>])"
  by (simp add: write_failure_def example_defs)

section \<open>Claims that race\<close>

text \<open>
  Claims made one after the other: when the job is locked none succeeds, and when it is
  not locked the first succeeds and no other does.
\<close>

lemma lock_job_each_locked:
  assumes "distinct (map job_id s)" and "get_row jid s = Some r" and "locked_at r \<noteq> None"
  shows "lock_job_each jid now ws s = (replicate (length ws) False, s)"
proof -
  have "lock_job_select jid s"
    using find_conj_unique[OF assms(1), of jid r "\<lambda>r. locked_at r \<noteq> None"] assms(2,3)
    by (simp add: lock_job_select_def get_row_def)
  then have "lock_job jid w now now s = (False, s)" for w
    by (simp add: lock_job_def)
  then show ?thesis by (induction ws) simp_all
qed

lemma lock_job_each_unlocked:
  assumes "distinct (map job_id s)" and "get_row jid s = Some r" and "locked_at r = None"
  shows "fst (lock_job_each jid now (w # ws) s) = True # replicate (length ws) False"
proof -
  let ?s1 = "snd (lock_job_update jid w now now s)"
  have l: "lock_job jid w now now s = (True, ?s1)"
    by (rule lock_job_unlocked[OF assms])
  have d1: "distinct (map job_id ?s1)" using assms(1) by simp
  have g1: "get_row jid ?s1 = Some (r\<lparr>state := PROCESSING, locked_at := Some now,
              locked_by := Some w, updated_at := now\<rparr>)"
    by (rule get_row_lock_job_update[OF assms(2)])
  have "lock_job_each jid now ws ?s1 = (replicate (length ws) False, ?s1)"
    by (rule lock_job_each_locked[OF d1 g1]) simp
  with l show ?thesis by simp
qed


text \<open>
  C1, at a failing input. Two claimants of the pending job \<open>job1\<close> both run the query
  of \<open>lock_job\<close> before either runs its update. Neither sees a lock, the update has no
  condition on the lock, and both calls return \<open>True\<close>; the row is left locked by the
  second.
\<close>

theorem interleaved_claims_both_succeed:
  "run_claims ''job1'' 2 [0, 1, 0, 1] [''worker1'', ''worker2''] job1_pending
     = ([(''worker1'', Finished True), (''worker2'', Finished True)],
        [\<lparr>job_id = ''job1'', command = ''echo ok'', state = PROCESSING, attempts = 0,
          max_retries = 3, created_at = 1, updated_at = 2,
          locked_at = Some 2, locked_by = Some ''worker2''\<rparr>])"
  by (simp add: run_claims_def example_defs)

end
